theory Spec2Isabelle
  imports Main "HOL-Library.Multiset" "HOL-Library.Char_ord" "HOL-Library.List_Lexorder"
begin

section \<open>Felit: the chat server's request handlers over its two tables\<close>

text \<open>
  The server (felit_server.js) keeps two SQLite tables, users and messages, and a session
  store held by express-session in the memory of the process. Every route handler opens
  the database, issues one or two SQL statements through the promise wrappers \<open>run\<close>,
  \<open>get\<close> and \<open>all\<close>, and answers. The model below has the tables as lists of rows, the
  session store as a map from session id to the stored user, and every handler as a
  function from the state before the request to the response, the state after it and the
  statements the wrappers were given.
\<close>

subsection \<open>Tables\<close>

text \<open>
  users(id, username, password_hash, is_admin) and messages(id, sender_id, text, ts).
  \<open>is_admin\<close> is an INTEGER column. \<open>ts\<close> is filled by CURRENT_TIMESTAMP, a text of the
  fixed form YYYY-MM-DD HH:MM:SS whose text order is the order of the seconds it denotes;
  it is a number of seconds here.
\<close>

record user =
  u_id :: nat
  username :: string
  password_hash :: string
  is_admin :: int

record message =
  m_id :: nat
  sender_id :: nat
  m_text :: string
  ts :: nat

record db =
  users :: "user list"
  messages :: "message list"

subsection \<open>Sessions, requests, responses\<close>

text \<open>The object stored at login: \<open>{ id, username, is_admin }\<close>.\<close>

record session_user =
  s_id :: nat
  s_username :: string
  s_is_admin :: bool

record state =
  db :: db
  sessions :: "nat \<rightharpoonup> session_user"

text \<open>
  \<open>req.body\<close> as the body parsers leave it: the fields the handlers read, each a text
  or absent (\<open>undefined\<close> in the source).
\<close>

record parsed_body =
  b_username :: "string option"
  b_password :: "string option"
  b_text :: "string option"

text \<open>
  A request carries the id of the session express-session attaches to it (the one of its
  cookie) and its parsed body. A request without a body that the parsers accept has none:
  \<open>req.body\<close> is \<open>undefined\<close>.
\<close>

record request =
  sid :: nat
  body :: "parsed_body option"

text \<open>The fields of a request's body; a request without a body has none of them.\<close>

definition body_username :: "request \<Rightarrow> string option" where
  "body_username req = (case body req of None \<Rightarrow> None | Some b \<Rightarrow> b_username b)"

definition body_password :: "request \<Rightarrow> string option" where
  "body_password req = (case body req of None \<Rightarrow> None | Some b \<Rightarrow> b_password b)"

definition body_text :: "request \<Rightarrow> string option" where
  "body_text req = (case body req of None \<Rightarrow> None | Some b \<Rightarrow> b_text b)"

text \<open>The rows the three SELECT statements return.\<close>

record msg_row =
  r_id :: nat
  r_text :: string
  r_ts :: nat
  r_username :: string
  r_is_admin :: int

record admin_row =
  a_id :: nat
  a_text :: string
  a_ts :: nat
  a_sender :: string
  a_is_admin :: int

record user_row =
  c_id :: nat
  c_username :: string
  c_is_admin :: int

text \<open>
  What the client gets. \<open>Uncaught\<close> is the answer to an error that leaves the handler:
  Express passes it to its error handler, which answers 500. \<open>NoResponse\<close> is the end
  of the process before anything is sent.
\<close>

datatype response =
    Redirect string
  | SendFile string
  | Send nat string
  | SendStatus nat
  | JsonMessages nat "msg_row list"
  | JsonAdmin "user_row list" "admin_row list"
  | JsonHealth
  | Uncaught
  | NoResponse

text \<open>
  The HTTP status of a response; \<open>res.redirect\<close> answers 302, the others 200 unless set.
  Where nothing is sent there is no status, written 0.
\<close>

fun status :: "response \<Rightarrow> nat" where
  "status (Redirect _) = 302"
| "status (SendFile _) = 200"
| "status (Send c _) = c"
| "status (SendStatus c) = c"
| "status (JsonMessages c _) = c"
| "status (JsonAdmin _ _) = 200"
| "status JsonHealth = 200"
| "status Uncaught = 500"
| "status NoResponse = 0"

subsection \<open>The storage engine\<close>

text \<open>The five SQL statements the handlers issue.\<close>

datatype stmt = SelectUser | InsertMessage | SelectMessages | SelectUsers | SelectAdminMessages

text \<open>
  What a request's outcome depends on beyond the state: whether the database file can be
  opened, which statements fail on the opened database (an I/O error, a missing table, a
  violated constraint: the wrapper's promise is rejected), the clock that
  CURRENT_TIMESTAMP reads, and which passwords bcrypt finds to match which hashes.
\<close>

record env =
  opens :: bool
  fails :: "stmt \<Rightarrow> bool"
  now :: nat
  bcrypt_matches :: "string \<Rightarrow> string \<Rightarrow> bool"

text \<open>A statement is carried out when the file opens and the statement does not fail.\<close>

definition rejects :: "env \<Rightarrow> stmt \<Rightarrow> bool" where
  "rejects e s = (if opens e then fails e s else True)"

text \<open>
  \<open>bcrypt.compare(password, hash)\<close>: its promise is rejected when the password is
  missing ("data and hash arguments required"), written \<open>None\<close>; otherwise it answers
  whether the password matches.
\<close>

definition bcrypt_compare :: "env \<Rightarrow> string option \<Rightarrow> string \<Rightarrow> bool option" where
  "bcrypt_compare e p h = (case p of None \<Rightarrow> None | Some s \<Rightarrow> Some (bcrypt_matches e s h))"

text \<open>
  \<open>ORDER BY key ASC\<close> and \<open>ORDER BY key DESC\<close>. No index serves either order on the
  schema \<open>initDb\<close> creates, so SQLite sorts the rows it has scanned, and its sorter keeps
  rows of equal key in the order of the scan, in both directions.
\<close>

definition order_by_asc :: "('a \<Rightarrow> 'k::linorder) \<Rightarrow> 'a list \<Rightarrow> 'a list" where
  "order_by_asc key rows = sort_key key rows"

definition order_by_desc :: "('a \<Rightarrow> 'k::linorder) \<Rightarrow> 'a list \<Rightarrow> 'a list" where
  "order_by_desc key rows = rev (sort_key key (rev rows))"

text \<open>
  \<open>FROM messages m JOIN users u ON m.sender_id = u.id\<close>: the messages table is scanned,
  which visits its rows in the order of their rowid, the \<open>id\<close> column, and every message
  is paired with the users of its \<open>sender_id\<close>.
\<close>

definition scan_messages :: "db \<Rightarrow> message list" where
  "scan_messages d = sort_key m_id (messages d)"

definition join :: "db \<Rightarrow> (message \<times> user) list" where
  "join d = concat (map (\<lambda>m. map (Pair m) (filter (\<lambda>u. sender_id m = u_id u) (users d)))
                        (scan_messages d))"

text \<open>
  The wrappers \<open>get\<close>, \<open>run\<close> and \<open>all\<close> with the statements they are given. Each takes
  the statements issued so far and returns them with its own added, next to its outcome:
  \<open>None\<close> when the promise is rejected.

  \<open>SELECT * FROM users WHERE username=?\<close>, through \<open>get\<close>: the first row, if any. An
  absent username is bound as NULL, which equals no stored name.
\<close>

definition user_named :: "db \<Rightarrow> string option \<Rightarrow> user option" where
  "user_named d name =
     (case name of None \<Rightarrow> None | Some n \<Rightarrow> find (\<lambda>u. username u = n) (users d))"

definition select_user ::
  "env \<Rightarrow> db \<Rightarrow> string option \<Rightarrow> stmt list \<Rightarrow> user option option \<times> stmt list" where
  "select_user e d name log =
     (if fails e SelectUser then None else Some (user_named d name), log @ [SelectUser])"

text \<open>
  \<open>INSERT INTO messages(sender_id, text) VALUES(?, ?)\<close>: the id is one more than the
  largest rowid of the table (rows are never deleted), the timestamp the clock's.
\<close>

definition next_id :: "message list \<Rightarrow> nat" where
  "next_id ms = Suc (fold max (map m_id ms) 0)"

definition insert_message ::
  "env \<Rightarrow> db \<Rightarrow> nat \<Rightarrow> string \<Rightarrow> stmt list \<Rightarrow> db option \<times> stmt list" where
  "insert_message e d sender txt log =
     (if fails e InsertMessage then None
      else Some (d\<lparr>messages := messages d @
                    [\<lparr>m_id = next_id (messages d), sender_id = sender, m_text = txt,
                      ts = now e\<rparr>]\<rparr>),
      log @ [InsertMessage])"

text \<open>\<open>SELECT m.id, m.text, m.ts, u.username, u.is_admin ... ORDER BY m.ts ASC\<close>\<close>

definition to_msg_row :: "message \<times> user \<Rightarrow> msg_row" where
  "to_msg_row p = \<lparr>r_id = m_id (fst p), r_text = m_text (fst p), r_ts = ts (fst p),
                   r_username = username (snd p), r_is_admin = is_admin (snd p)\<rparr>"

definition select_messages ::
  "env \<Rightarrow> db \<Rightarrow> stmt list \<Rightarrow> msg_row list option \<times> stmt list" where
  "select_messages e d log =
     (if fails e SelectMessages then None
      else Some (map to_msg_row (order_by_asc (\<lambda>p. ts (fst p)) (join d))),
      log @ [SelectMessages])"

text \<open>\<open>SELECT id, username, is_admin FROM users ORDER BY username ASC\<close>\<close>

definition to_user_row :: "user \<Rightarrow> user_row" where
  "to_user_row u = \<lparr>c_id = u_id u, c_username = username u, c_is_admin = is_admin u\<rparr>"

definition select_users ::
  "env \<Rightarrow> db \<Rightarrow> stmt list \<Rightarrow> user_row list option \<times> stmt list" where
  "select_users e d log =
     (if fails e SelectUsers then None
      else Some (map to_user_row (order_by_asc username (users d))),
      log @ [SelectUsers])"

text \<open>\<open>SELECT m.id, m.text, m.ts, u.username as sender, u.is_admin ... ORDER BY m.ts DESC\<close>\<close>

definition to_admin_row :: "message \<times> user \<Rightarrow> admin_row" where
  "to_admin_row p = \<lparr>a_id = m_id (fst p), a_text = m_text (fst p), a_ts = ts (fst p),
                     a_sender = username (snd p), a_is_admin = is_admin (snd p)\<rparr>"

definition select_admin_messages ::
  "env \<Rightarrow> db \<Rightarrow> stmt list \<Rightarrow> admin_row list option \<times> stmt list" where
  "select_admin_messages e d log =
     (if fails e SelectAdminMessages then None
      else Some (map to_admin_row (order_by_desc (\<lambda>p. ts (fst p)) (join d))),
      log @ [SelectAdminMessages])"

subsection \<open>Handlers\<close>

text \<open>
  What a handler leaves behind: the response, the state, and the statements the wrappers
  were given while it ran.
\<close>

record result =
  resp :: response
  post :: state
  issued :: "stmt list"

text \<open>
  Destructuring \<open>req.body\<close> when it is \<open>undefined\<close> throws, before the handler's \<open>try\<close>:
  the error leaves the handler.
\<close>

definition thrown :: "state \<Rightarrow> result" where
  "thrown st = \<lparr>resp = Uncaught, post = st, issued = []\<rparr>"

text \<open>
  \<open>openDb\<close> gives \<open>new sqlite3.Database\<close> no callback and the handle no error listener:
  a file that cannot be opened ends the process with an unhandled error event. No
  response is sent, the queued statement never runs, and the session store, which lives
  in the process, is lost.
\<close>

definition crashed :: "state \<Rightarrow> result" where
  "crashed st = \<lparr>resp = NoResponse, post = st\<lparr>sessions := Map.empty\<rparr>, issued = []\<rparr>"

text \<open>JavaScript's \<open>!text\<close> on a body field: true when it is absent or the empty string.\<close>

definition truthy :: "string option \<Rightarrow> bool" where
  "truthy t = (case t of None \<Rightarrow> False | Some s \<Rightarrow> s \<noteq> [])"

text \<open>
  \<open>requireLogin\<close>: without \<open>req.session.user\<close> the request is redirected to the login
  page; otherwise the route's handler runs, here with the session's user at hand.
\<close>

definition requireLogin :: "state \<Rightarrow> request \<Rightarrow> (session_user \<Rightarrow> result) \<Rightarrow> result" where
  "requireLogin st req next =
     (case sessions st (sid req) of
        None \<Rightarrow> \<lparr>resp = Redirect ''/login.html'', post = st, issued = []\<rparr>
      | Some su \<Rightarrow> next su)"

text \<open>\<open>app.get('/')\<close>\<close>

definition get_root :: "state \<Rightarrow> request \<Rightarrow> result" where
  "get_root st req =
     requireLogin st req (\<lambda>su. \<lparr>resp = SendFile ''public/chat.html'', post = st, issued = []\<rparr>)"

text \<open>
  \<open>app.post('/login')\<close>: the body is destructured and the database opened before the
  \<open>try\<close>; inside it, a rejected lookup or comparison is caught and answered 500.
\<close>

definition post_login :: "env \<Rightarrow> state \<Rightarrow> request \<Rightarrow> result" where
  "post_login e st req =
     (case body req of
        None \<Rightarrow> thrown st
      | Some b \<Rightarrow>
          if \<not> opens e then crashed st
          else (case select_user e (db st) (b_username b) [] of
                  (None, log) \<Rightarrow> \<lparr>resp = Send 500 ''Server error'', post = st, issued = log\<rparr>
                | (Some None, log) \<Rightarrow>
                    \<lparr>resp = Send 401 ''Invalid username/password'', post = st, issued = log\<rparr>
                | (Some (Some u), log) \<Rightarrow>
                    (case bcrypt_compare e (b_password b) (password_hash u) of
                       None \<Rightarrow> \<lparr>resp = Send 500 ''Server error'', post = st, issued = log\<rparr>
                     | Some False \<Rightarrow>
                         \<lparr>resp = Send 401 ''Invalid username/password'', post = st,
                           issued = log\<rparr>
                     | Some True \<Rightarrow>
                         \<lparr>resp = Redirect ''/'',
                           post = st\<lparr>sessions := (sessions st)(sid req \<mapsto>
                                    \<lparr>s_id = u_id u, s_username = username u,
                                      s_is_admin = (is_admin u \<noteq> 0)\<rparr>)\<rparr>,
                           issued = log\<rparr>)))"

text \<open>\<open>app.post('/logout')\<close>: the session is destroyed, then the redirect is sent.\<close>

definition post_logout :: "state \<Rightarrow> request \<Rightarrow> result" where
  "post_logout st req =
     \<lparr>resp = Redirect ''/login.html'',
       post = st\<lparr>sessions := (sessions st)(sid req := None)\<rparr>, issued = []\<rparr>"

text \<open>
  \<open>app.post('/send')\<close>: behind \<open>requireLogin\<close> the body is destructured, then the guard
  \<open>!text || !req.session.user\<close> is tested, then the database is opened.
\<close>

definition post_send :: "env \<Rightarrow> state \<Rightarrow> request \<Rightarrow> result" where
  "post_send e st req =
     requireLogin st req (\<lambda>su.
       case body req of
         None \<Rightarrow> thrown st
       | Some b \<Rightarrow>
           if \<not> truthy (b_text b) \<or> sessions st (sid req) = None
           then \<lparr>resp = Send 400 ''Bad Request'', post = st, issued = []\<rparr>
           else if \<not> opens e then crashed st
           else (case insert_message e (db st) (s_id su) (the (b_text b)) [] of
                   (Some d', log) \<Rightarrow>
                     \<lparr>resp = SendStatus 200, post = st\<lparr>db := d'\<rparr>, issued = log\<rparr>
                 | (None, log) \<Rightarrow>
                     \<lparr>resp = Send 500 ''Database error'', post = st, issued = log\<rparr>))"

text \<open>\<open>app.get('/messages')\<close>\<close>

definition get_messages :: "env \<Rightarrow> state \<Rightarrow> request \<Rightarrow> result" where
  "get_messages e st req =
     requireLogin st req (\<lambda>su.
       if \<not> opens e then crashed st
       else (case select_messages e (db st) [] of
               (Some rows, log) \<Rightarrow> \<lparr>resp = JsonMessages 200 rows, post = st, issued = log\<rparr>
             | (None, log) \<Rightarrow> \<lparr>resp = JsonMessages 500 [], post = st, issued = log\<rparr>))"

text \<open>\<open>app.get('/admin')\<close>\<close>

definition get_admin :: "env \<Rightarrow> state \<Rightarrow> request \<Rightarrow> result" where
  "get_admin e st req =
     requireLogin st req (\<lambda>su.
       if \<not> s_is_admin su
       then \<lparr>resp = Send 403 ''Forbidden'', post = st, issued = []\<rparr>
       else if \<not> opens e then crashed st
       else (case select_users e (db st) [] of
               (None, log) \<Rightarrow> \<lparr>resp = Send 500 ''Server error'', post = st, issued = log\<rparr>
             | (Some us, log) \<Rightarrow>
                 (case select_admin_messages e (db st) log of
                    (None, log') \<Rightarrow>
                      \<lparr>resp = Send 500 ''Server error'', post = st, issued = log'\<rparr>
                  | (Some ms, log') \<Rightarrow>
                      \<lparr>resp = JsonAdmin us ms, post = st, issued = log'\<rparr>)))"

text \<open>\<open>app.get('/.well-known/health')\<close>\<close>

definition get_health :: "state \<Rightarrow> request \<Rightarrow> result" where
  "get_health st req = \<lparr>resp = JsonHealth, post = st, issued = []\<rparr>"

subsection \<open>Integrity of the tables\<close>

text \<open>
  The data model's invariant: user ids are a primary key and every message has an existing
  sender. A state is well formed when, moreover, every session is the session of a stored
  user.
\<close>

definition has_sender :: "db \<Rightarrow> message \<Rightarrow> bool" where
  "has_sender d m = list_ex (\<lambda>u. sender_id m = u_id u) (users d)"

definition ref_integrity :: "db \<Rightarrow> bool" where
  "ref_integrity d = (distinct (map u_id (users d)) \<and> list_all (has_sender d) (messages d))"

definition wf_state :: "state \<Rightarrow> bool" where
  "wf_state st =
     (ref_integrity (db st) \<and>
      (\<forall>k su. sessions st k = Some su \<longrightarrow> list_ex (\<lambda>u. s_id su = u_id u) (users (db st))))"

text \<open>The order "ascending by timestamp, equal timestamps by id" on the rows of a listing.\<close>

definition time_then_id :: "msg_row list \<Rightarrow> bool" where
  "time_then_id rows =
     sorted_wrt (\<lambda>a b. r_ts a < r_ts b \<or> (r_ts a = r_ts b \<and> r_id a \<le> r_id b)) rows"

subsection \<open>A small installation\<close>

text \<open>
  Two provisioned users, root (admin) and alice, three messages of which the first two
  carry the same timestamp, and one open session for each user.
\<close>

definition root :: user where
  "root = \<lparr>u_id = 1, username = ''root'', password_hash = ''h-toor'', is_admin = 1\<rparr>"

definition alice :: user where
  "alice = \<lparr>u_id = 2, username = ''alice'', password_hash = ''h-wonder'', is_admin = 0\<rparr>"

definition db0 :: db where
  "db0 = \<lparr>users = [root, alice],
          messages = [\<lparr>m_id = 1, sender_id = 2, m_text = ''hi'', ts = 5\<rparr>,
                      \<lparr>m_id = 2, sender_id = 1, m_text = ''yo'', ts = 5\<rparr>,
                      \<lparr>m_id = 3, sender_id = 2, m_text = ''bye'', ts = 9\<rparr>]\<rparr>"

definition st0 :: state where
  "st0 = \<lparr>db = db0,
          sessions = [10 \<mapsto> \<lparr>s_id = 2, s_username = ''alice'', s_is_admin = False\<rparr>,
                      11 \<mapsto> \<lparr>s_id = 1, s_username = ''root'', s_is_admin = True\<rparr>]\<rparr>"

text \<open>A stand-in for bcrypt: the hash of a password is the password behind "h-".\<close>

definition toy_matches :: "string \<Rightarrow> string \<Rightarrow> bool" where
  "toy_matches s h = (''h-'' @ s = h)"

definition accept_all :: "stmt \<Rightarrow> bool" where
  "accept_all s = False"

definition reject_all :: "stmt \<Rightarrow> bool" where
  "reject_all s = True"

text \<open>A store that opens and carries out every statement.\<close>

definition env0 :: env where
  "env0 = \<lparr>opens = True, fails = accept_all, now = 12, bcrypt_matches = toy_matches\<rparr>"

text \<open>
  One on which every statement fails, one on which only the last does, and one whose file
  cannot be opened.
\<close>

definition env_down :: env where
  "env_down = env0\<lparr>fails := reject_all\<rparr>"

definition env_half :: env where
  "env_half = env0\<lparr>fails := (=) SelectAdminMessages\<rparr>"

definition env_closed :: env where
  "env_closed = env0\<lparr>opens := False\<rparr>"

text \<open>A GET request, and the POST requests of the chat page and of the login form.\<close>

definition request0 :: "nat \<Rightarrow> request" where
  "request0 c = \<lparr>sid = c, body = None\<rparr>"

definition send_request :: "nat \<Rightarrow> string \<Rightarrow> request" where
  "send_request c t =
     \<lparr>sid = c, body = Some \<lparr>b_username = None, b_password = None, b_text = Some t\<rparr>\<rparr>"

definition login_request :: "nat \<Rightarrow> string \<Rightarrow> string \<Rightarrow> request" where
  "login_request c n p =
     \<lparr>sid = c, body = Some \<lparr>b_username = Some n, b_password = Some p, b_text = None\<rparr>\<rparr>"

text \<open>A login that names a user and carries no password.\<close>

definition login_without_password :: "nat \<Rightarrow> string \<Rightarrow> request" where
  "login_without_password c n =
     \<lparr>sid = c, body = Some \<lparr>b_username = Some n, b_password = None, b_text = None\<rparr>\<rparr>"

text \<open>A table with a message (id 2) whose sender was never stored.\<close>

definition db_orphan :: db where
  "db_orphan = \<lparr>users = [root, alice],
                messages = [\<lparr>m_id = 1, sender_id = 2, m_text = ''hi'', ts = 5\<rparr>,
                            \<lparr>m_id = 2, sender_id = 7, m_text = ''lost'', ts = 6\<rparr>]\<rparr>"

definition st_orphan :: state where
  "st_orphan = st0\<lparr>db := db_orphan\<rparr>"

text \<open>
  Tables whose first message carries the latest timestamp (the clock was set back after
  it) and whose other two share one.
\<close>

definition db_skew :: db where
  "db_skew = \<lparr>users = [root, alice],
              messages = [\<lparr>m_id = 1, sender_id = 2, m_text = ''hi'', ts = 9\<rparr>,
                          \<lparr>m_id = 2, sender_id = 1, m_text = ''yo'', ts = 5\<rparr>,
                          \<lparr>m_id = 3, sender_id = 2, m_text = ''bye'', ts = 5\<rparr>]\<rparr>"

definition st_skew :: state where
  "st_skew = st0\<lparr>db := db_skew\<rparr>"

section \<open>Properties\<close>

lemmas ex_defs = st0_def db0_def root_def alice_def env0_def env_down_def env_half_def
  env_closed_def request0_def send_request_def login_request_def login_without_password_def
  toy_matches_def accept_all_def reject_all_def db_orphan_def st_orphan_def db_skew_def
  st_skew_def

lemmas h_defs = get_messages_def get_admin_def post_send_def post_login_def post_logout_def
  requireLogin_def thrown_def crashed_def select_messages_def select_users_def
  select_admin_messages_def select_user_def insert_message_def user_named_def join_def
  scan_messages_def order_by_asc_def order_by_desc_def to_msg_row_def to_user_row_def
  to_admin_row_def truthy_def next_id_def has_sender_def rejects_def bcrypt_compare_def
  body_username_def body_password_def body_text_def

subsection \<open>Requests and the store\<close>

lemma body_usernameD:
  "body_username req = Some n \<Longrightarrow> \<exists>b. body req = Some b \<and> b_username b = Some n"
  by (cases "body req") (simp_all add: body_username_def)

lemma body_textD:
  "body_text req = Some t \<Longrightarrow> \<exists>b. body req = Some b \<and> b_text b = Some t"
  by (cases "body req") (simp_all add: body_text_def)

lemma not_rejects: "\<not> rejects e s \<longleftrightarrow> opens e \<and> \<not> fails e s"
  by (simp add: rejects_def)

subsection \<open>ORDER BY\<close>

lemma mset_order_by_asc: "mset (order_by_asc key rows) = mset rows"
  by (simp add: order_by_asc_def)

lemma set_order_by_asc: "set (order_by_asc key rows) = set rows"
  by (simp add: order_by_asc_def)

lemma sorted_order_by_asc: "sorted (map key (order_by_asc key rows))"
  by (simp add: order_by_asc_def)

lemma mset_order_by_desc: "mset (order_by_desc key rows) = mset rows"
  by (simp add: order_by_desc_def)

lemma set_order_by_desc: "set (order_by_desc key rows) = set rows"
  by (simp add: order_by_desc_def)

lemma sorted_order_by_desc: "sorted (rev (map key (order_by_desc key rows)))"
  by (simp add: order_by_desc_def rev_map)

text \<open>
  The sorter is stable: inserting a row that comes before all the others in a second key
  keeps a list ordered on the first key, and on the second among equal first keys.
\<close>

lemma insort_key_ties:
  fixes f :: "'a \<Rightarrow> nat" and g :: "'a \<Rightarrow> nat"
  assumes "sorted_wrt (\<lambda>a b. f a < f b \<or> (f a = f b \<and> g a \<le> g b)) ys"
    and "\<forall>y\<in>set ys. g x \<le> g y"
  shows "sorted_wrt (\<lambda>a b. f a < f b \<or> (f a = f b \<and> g a \<le> g b)) (insort_key f x ys)"
  using assms
proof (induction ys)
  case Nil
  then show ?case by simp
next
  case (Cons y ys)
  show ?case
  proof (cases "f x \<le> f y")
    case True
    have "f x < f z \<or> (f x = f z \<and> g x \<le> g z)" if "z \<in> set (y # ys)" for z
    proof -
      from Cons.prems(1) that have "f y \<le> f z" by auto
      with True have "f x \<le> f z" by simp
      moreover from Cons.prems(2) that have "g x \<le> g z" by auto
      ultimately show ?thesis by auto
    qed
    with True Cons.prems(1) show ?thesis by simp
  next
    case False
    with Cons show ?thesis by (auto simp: set_insort_key)
  qed
qed

lemma sort_key_ties:
  fixes f :: "'a \<Rightarrow> nat" and g :: "'a \<Rightarrow> nat"
  assumes "sorted (map g xs)"
  shows "sorted_wrt (\<lambda>a b. f a < f b \<or> (f a = f b \<and> g a \<le> g b)) (sort_key f xs)"
  using assms
proof (induction xs)
  case Nil
  then show ?case by simp
next
  case (Cons x xs)
  then have "\<forall>y\<in>set (sort_key f xs). g x \<le> g y" by simp
  with Cons show ?case by (simp add: insort_key_ties)
qed

subsection \<open>The join\<close>

lemma has_sender_fun: "has_sender d = (\<lambda>m. list_ex (\<lambda>u. sender_id m = u_id u) (users d))"
  by (simp add: fun_eq_iff has_sender_def)

lemma set_join:
  "set (join d) = {(m, u). m \<in> set (messages d) \<and> u \<in> set (users d) \<and> sender_id m = u_id u}"
  by (auto simp: join_def scan_messages_def)

text \<open>The join comes in the order of the scan, by message id.\<close>

lemma sorted_const: "sorted (map (\<lambda>x. c) xs)"
  by (induction xs) simp_all

lemma sorted_pairs:
  "sorted (map m_id ms) \<Longrightarrow>
   sorted (map (\<lambda>p. m_id (fst p)) (concat (map (\<lambda>m. map (Pair m) (F m)) ms)))"
  by (induction ms) (auto simp: sorted_append comp_def sorted_const)

lemma sorted_join: "sorted (map (\<lambda>p. m_id (fst p)) (join d))"
  unfolding join_def scan_messages_def by (rule sorted_pairs) simp

lemma filter_key_single:
  "distinct (map f xs) \<Longrightarrow> x \<in> set xs \<Longrightarrow> filter (\<lambda>y. f x = f y) xs = [x]"
proof (induction xs)
  case Nil
  then show ?case by simp
next
  case (Cons a xs)
  show ?case
  proof (cases "a = x")
    case True
    with Cons.prems have "\<forall>y\<in>set xs. f x \<noteq> f y" by auto
    then have "filter (\<lambda>y. f x = f y) xs = []" by (simp add: filter_empty_conv)
    with True show ?thesis by simp
  next
    case False
    with Cons.prems have "x \<in> set xs" "f a \<noteq> f x" by auto
    with Cons show ?thesis by auto
  qed
qed

lemma sender_rows_single:
  assumes "distinct (map u_id us)" and "list_ex (\<lambda>u. k = u_id u) us"
  shows "\<exists>u. filter (\<lambda>u. k = u_id u) us = [u]"
proof -
  from assms(2) obtain u where u: "u \<in> set us" "k = u_id u" by (auto simp: list_ex_iff)
  from filter_key_single[OF assms(1) u(1)] u(2) show ?thesis by auto
qed

text \<open>Under referential integrity the join has one row for each message.\<close>

lemma join_messages:
  assumes "ref_integrity d"
  shows "mset (map fst (join d)) = mset (messages d)"
proof -
  have "map fst (concat (map (\<lambda>m. map (Pair m) (filter (\<lambda>u. sender_id m = u_id u) us)) ms)) = ms"
    if "distinct (map u_id us)" "\<forall>m\<in>set ms. list_ex (\<lambda>u. sender_id m = u_id u) us"
    for us :: "user list" and ms :: "message list"
    using that
  proof (induction ms)
    case Nil
    then show ?case by simp
  next
    case (Cons m ms)
    from Cons.prems obtain u where "filter (\<lambda>u. sender_id m = u_id u) us = [u]"
      using sender_rows_single[of us "sender_id m"] by auto
    with Cons show ?case by simp
  qed
  with assms have "map fst (join d) = scan_messages d"
    by (simp add: join_def ref_integrity_def has_sender_fun scan_messages_def list_all_iff)
  then show ?thesis by (simp add: scan_messages_def)
qed

lemma msg_cols_join:
  "map (\<lambda>r. (r_id r, r_text r, r_ts r)) (map to_msg_row ps) =
   map (\<lambda>m. (m_id m, m_text m, ts m)) (map fst ps)"
  by (simp add: to_msg_row_def)

lemma admin_cols_join:
  "map (\<lambda>r. (a_id r, a_text r, a_ts r)) (map to_admin_row ps) =
   map (\<lambda>m. (m_id m, m_text m, ts m)) (map fst ps)"
  by (simp add: to_admin_row_def)

subsection \<open>Keys\<close>

lemma find_distinct_key:
  "distinct (map f xs) \<Longrightarrow> x \<in> set xs \<Longrightarrow> find (\<lambda>y. f y = f x) xs = Some x"
  by (induction xs) (auto simp: rev_image_eqI)

lemma fold_max_ge: "(a::nat) \<le> fold max xs a"
  by (induction xs arbitrary: a) (auto intro: order_trans[OF max.cobounded2])

lemma fold_max_upper: "x \<in> set xs \<Longrightarrow> (x::nat) \<le> fold max xs a"
proof (induction xs arbitrary: a)
  case Nil
  then show ?case by simp
next
  case (Cons y ys)
  then show ?case
    using fold_max_ge[of "max y a" ys] by auto
qed

text \<open>The id of an inserted message is new.\<close>

lemma next_id_fresh: "m \<in> set ms \<Longrightarrow> m_id m < next_id ms"
  using fold_max_upper[of "m_id m" "map m_id ms" 0] by (simp add: next_id_def less_Suc_eq_le)

subsection \<open>Every handler keeps the state well formed\<close>

text \<open>
  Users are only read, a session is only ever bound to a row of the users table, and a
  message is only ever inserted with the id of the session's user: from a well-formed
  state the handlers reach well-formed states only, whatever the store does.
\<close>

lemma wf_post_login: "wf_state st \<Longrightarrow> wf_state (post (post_login e st req))"
proof -
  assume wf: "wf_state st"
  have "list_ex (\<lambda>v. u_id u = u_id v) (users (db st))"
    if "user_named (db st) n = Some u" for u n
  proof -
    from that have "u \<in> set (users (db st))"
      by (cases n) (auto simp: user_named_def find_Some_iff)
    then show ?thesis by (auto simp: list_ex_iff)
  qed
  with wf show ?thesis
    by (auto simp: post_login_def select_user_def wf_state_def thrown_def crashed_def
        split: option.splits bool.splits)
qed

lemma wf_post_logout: "wf_state st \<Longrightarrow> wf_state (post (post_logout st req))"
  by (auto simp: post_logout_def wf_state_def split: if_splits)

lemma wf_post_send: "wf_state st \<Longrightarrow> wf_state (post (post_send e st req))"
  by (auto simp: post_send_def requireLogin_def insert_message_def wf_state_def
      ref_integrity_def has_sender_fun thrown_def crashed_def split: option.splits)

lemma wf_get_messages: "wf_state st \<Longrightarrow> wf_state (post (get_messages e st req))"
  by (auto simp: get_messages_def requireLogin_def select_messages_def wf_state_def
      crashed_def split: option.splits)

lemma wf_get_admin: "wf_state st \<Longrightarrow> wf_state (post (get_admin e st req))"
  by (auto simp: get_admin_def requireLogin_def select_users_def select_admin_messages_def
      wf_state_def crashed_def split: option.splits)

subsection \<open>What the two listings answer when the store carries the statements out\<close>

lemma get_messages_ok:
  assumes "sessions st (sid req) \<noteq> None" and "\<not> rejects e SelectMessages"
  shows "get_messages e st req =
           \<lparr>resp = JsonMessages 200
              (map to_msg_row (order_by_asc (\<lambda>p. ts (fst p)) (join (db st)))),
            post = st, issued = [SelectMessages]\<rparr>"
  using assms
  by (auto simp: get_messages_def requireLogin_def select_messages_def not_rejects)

lemma get_admin_ok:
  assumes "sessions st (sid req) = Some su" and "s_is_admin su"
    and "\<not> rejects e SelectUsers" and "\<not> rejects e SelectAdminMessages"
  shows "get_admin e st req =
           \<lparr>resp = JsonAdmin
              (map to_user_row (order_by_asc username (users (db st))))
              (map to_admin_row (order_by_desc (\<lambda>p. ts (fst p)) (join (db st)))),
            post = st, issued = [SelectUsers, SelectAdminMessages]\<rparr>"
  using assms
  by (simp add: get_admin_def requireLogin_def select_users_def select_admin_messages_def
      not_rejects)

section \<open>The claims\<close>

subsection \<open>C1: sending an empty text\<close>

text \<open>
  C1 as stated fails: the handler tests \<open>!text\<close> and never trims, so a text of three
  spaces, which is white space only, is answered 200 and stored as message 4.
\<close>

theorem send_whitespace_counterexample:
  "sessions st0 (sid (send_request 10 ''   '')) \<noteq> None \<and>
   body_text (send_request 10 ''   '') = Some (replicate 3 (CHR '' '')) \<and>
   resp (post_send env0 st0 (send_request 10 ''   '')) = SendStatus 200 \<and>
   messages (db (post (post_send env0 st0 (send_request 10 ''   '')))) =
     messages (db st0) @ [\<lparr>m_id = 4, sender_id = 2, m_text = ''   '', ts = 12\<rparr>]"
  by (simp add: h_defs ex_defs numeral_3_eq_3)

text \<open>
  C1, amended: for every POST /send request made with a valid session whose body text is
  empty, the server responds with the bad-request status 400, and no new row is added to
  the messages table: no statement is issued and the state is left as it was.
\<close>

theorem send_empty_rejected:
  assumes "sessions st (sid req) \<noteq> None" and "body_text req = Some []"
  shows "resp (post_send e st req) = Send 400 ''Bad Request'' \<and>
         status (resp (post_send e st req)) = 400 \<and>
         issued (post_send e st req) = [] \<and>
         post (post_send e st req) = st \<and>
         messages (db (post (post_send e st req))) = messages (db st)"
proof -
  from assms(2) obtain b where b: "body req = Some b" "b_text b = Some []"
    using body_textD by blast
  from assms(1) obtain su where su: "sessions st (sid req) = Some su" by auto
  have "post_send e st req = \<lparr>resp = Send 400 ''Bad Request'', post = st, issued = []\<rparr>"
    using b su by (simp add: post_send_def requireLogin_def truthy_def)
  then show ?thesis by simp
qed

theorem send_empty_rejected_witness:
  "sessions st0 (sid (send_request 10 [])) \<noteq> None \<and>
   body_text (send_request 10 []) = Some [] \<and>
   resp (post_send env0 st0 (send_request 10 [])) = Send 400 ''Bad Request'' \<and>
   messages (db (post (post_send env0 st0 (send_request 10 [])))) = messages (db st0)"
  using send_empty_rejected[where st = st0 and req = "send_request 10 []" and e = env0]
  by (simp add: st0_def send_request_def body_text_def)

subsection \<open>C2: the message listing\<close>

text \<open>
  C2: for every GET /messages request with a valid session (whose query the store carries
  out), the response is a JSON array with status 200, sorted ascending by creation
  timestamp with equal timestamps in id order, each entry a stored message annotated with
  the username and admin flag of its sender; it contains all stored messages, each once,
  when every message has an existing sender.
\<close>

theorem messages_listing:
  assumes "sessions st (sid req) \<noteq> None" and "\<not> rejects e SelectMessages"
  shows "\<exists>rows. resp (get_messages e st req) = JsonMessages 200 rows \<and>
           time_then_id rows \<and>
           sorted (map r_ts rows) \<and>
           (\<forall>r\<in>set rows. \<exists>m\<in>set (messages (db st)). \<exists>u\<in>set (users (db st)).
               sender_id m = u_id u \<and> r = to_msg_row (m, u)) \<and>
           (ref_integrity (db st) \<longrightarrow>
              mset (map (\<lambda>r. (r_id r, r_text r, r_ts r)) rows) =
              mset (map (\<lambda>m. (m_id m, m_text m, ts m)) (messages (db st))))"
proof -
  let ?ps = "order_by_asc (\<lambda>p. ts (fst p)) (join (db st))"
  have r: "resp (get_messages e st req) = JsonMessages 200 (map to_msg_row ?ps)"
    using get_messages_ok[OF assms] by simp
  have t: "time_then_id (map to_msg_row ?ps)"
    using sort_key_ties[OF sorted_join, of "\<lambda>p. ts (fst p)" "db st"]
    by (simp add: time_then_id_def sorted_wrt_map to_msg_row_def order_by_asc_def)
  have s: "sorted (map r_ts (map to_msg_row ?ps))"
    using sorted_order_by_asc[of "\<lambda>p. ts (fst p)" "join (db st)"]
    by (simp add: to_msg_row_def comp_def)
  have a: "\<forall>r\<in>set (map to_msg_row ?ps). \<exists>m\<in>set (messages (db st)). \<exists>u\<in>set (users (db st)).
               sender_id m = u_id u \<and> r = to_msg_row (m, u)"
    by (auto simp: set_order_by_asc set_join)
  have c: "mset (map (\<lambda>r. (r_id r, r_text r, r_ts r)) (map to_msg_row ?ps)) =
           mset (map (\<lambda>m. (m_id m, m_text m, ts m)) (messages (db st)))"
    if "ref_integrity (db st)"
  proof -
    have "mset (map fst ?ps) = mset (map fst (join (db st)))"
      by (simp add: mset_order_by_asc)
    then have "mset (map fst ?ps) = mset (messages (db st))"
      using join_messages[OF that] by simp
    then have "mset (map (\<lambda>m. (m_id m, m_text m, ts m)) (map fst ?ps)) =
               mset (map (\<lambda>m. (m_id m, m_text m, ts m)) (messages (db st)))"
      by (metis mset_map)
    then show ?thesis by (simp only: msg_cols_join)
  qed
  from r t s a c show ?thesis by blast
qed

theorem messages_listing_witness:
  "sessions st_skew (sid (request0 10)) \<noteq> None \<and> \<not> rejects env0 SelectMessages \<and>
   ref_integrity (db st_skew) \<and>
   map ts (messages (db st_skew)) = [9, 5, 5] \<and>
   resp (get_messages env0 st_skew (request0 10)) = JsonMessages 200
     [\<lparr>r_id = 2, r_text = ''yo'', r_ts = 5, r_username = ''root'', r_is_admin = 1\<rparr>,
      \<lparr>r_id = 3, r_text = ''bye'', r_ts = 5, r_username = ''alice'', r_is_admin = 0\<rparr>,
      \<lparr>r_id = 1, r_text = ''hi'', r_ts = 9, r_username = ''alice'', r_is_admin = 0\<rparr>] \<and>
   resp (get_messages env0 st0 (request0 10)) = JsonMessages 200
     [\<lparr>r_id = 1, r_text = ''hi'', r_ts = 5, r_username = ''alice'', r_is_admin = 0\<rparr>,
      \<lparr>r_id = 2, r_text = ''yo'', r_ts = 5, r_username = ''root'', r_is_admin = 1\<rparr>,
      \<lparr>r_id = 3, r_text = ''bye'', r_ts = 9, r_username = ''alice'', r_is_admin = 0\<rparr>]"
  using messages_listing[of st_skew "request0 10" env0]
    messages_listing[of st0 "request0 10" env0]
  by (simp add: h_defs ex_defs ref_integrity_def)

subsection \<open>C3 and C4: login\<close>

text \<open>
  The two failing branches the handler has, the unknown username and the comparison that
  answers false, send the same 401 and leave the state as it was.
\<close>

lemma login_mismatch_401:
  assumes "\<not> rejects e SelectUser" and "body req \<noteq> None"
    and "(\<forall>u\<in>set (users (db st)). body_username req \<noteq> Some (username u)) \<or>
         (\<exists>u. user_named (db st) (body_username req) = Some u \<and>
              bcrypt_compare e (body_password req) (password_hash u) = Some False)"
  shows "resp (post_login e st req) = Send 401 ''Invalid username/password'' \<and>
         post (post_login e st req) = st"
proof -
  from assms(2) obtain b where b: "body req = Some b" by auto
  from assms(3) b consider
    (unknown) "user_named (db st) (b_username b) = None"
    | (mismatch) u where "user_named (db st) (b_username b) = Some u"
        "bcrypt_compare e (b_password b) (password_hash u) = Some False"
    by (cases "b_username b")
      (auto simp: user_named_def find_None_iff body_username_def body_password_def)
  then show ?thesis
    using assms(1) b
    by cases (simp_all add: post_login_def select_user_def not_rejects)
qed

text \<open>
  C3 does not hold of the code. A login that names the stored user alice and carries no
  password makes \<open>bcrypt.compare\<close> reject; the handler's \<open>catch\<close> answers 500 "Server
  error". The same login naming bob, who is not stored, is answered 401: the two answers
  differ, and tell a stored username from an unknown one.
\<close>

theorem login_without_password_500:
  "user_named (db st0) (body_username (login_without_password 12 ''alice'')) = Some alice \<and>
   user_named (db st0) (body_username (login_without_password 12 ''bob'')) = None \<and>
   body_password (login_without_password 12 ''alice'') = None \<and>
   \<not> rejects env0 SelectUser \<and>
   resp (post_login env0 st0 (login_without_password 12 ''alice'')) =
     Send 500 ''Server error'' \<and>
   resp (post_login env0 st0 (login_without_password 12 ''bob'')) =
     Send 401 ''Invalid username/password''"
  by (simp add: h_defs ex_defs)

text \<open>This does not depend on the installation: no comparison answers without a password.\<close>

lemma login_without_password_any:
  assumes "\<not> rejects e SelectUser" and "body req = Some b" and "b_password b = None"
    and "user_named (db st) (b_username b) = Some u"
  shows "resp (post_login e st req) = Send 500 ''Server error''"
  using assms
  by (simp add: post_login_def select_user_def not_rejects bcrypt_compare_def)

text \<open>
  C4: for every POST /login request whose lookup the store accepts and whose username and
  password match a provisioned user (usernames being unique), the request succeeds with
  the redirect to the chat page and the request's session holds that user's id and
  username and the admin flag of the stored \<open>is_admin\<close> (true for a stored non-zero).
\<close>

theorem login_valid_session:
  assumes "\<not> rejects e SelectUser"
    and "distinct (map username (users (db st)))"
    and "u \<in> set (users (db st))"
    and "body_username req = Some (username u)"
    and "bcrypt_compare e (body_password req) (password_hash u) = Some True"
  shows "resp (post_login e st req) = Redirect ''/'' \<and>
         sessions (post (post_login e st req)) (sid req) =
           Some \<lparr>s_id = u_id u, s_username = username u, s_is_admin = (is_admin u \<noteq> 0)\<rparr> \<and>
         db (post (post_login e st req)) = db st"
proof -
  from assms(4) obtain b where b: "body req = Some b" "b_username b = Some (username u)"
    using body_usernameD by blast
  have "user_named (db st) (b_username b) = Some u"
    using assms(2,3) b(2) find_distinct_key[of username "users (db st)" u]
    by (simp add: user_named_def)
  moreover have "bcrypt_compare e (b_password b) (password_hash u) = Some True"
    using assms(5) b(1) by (simp add: body_password_def)
  ultimately show ?thesis
    using assms(1) b(1) by (simp add: post_login_def select_user_def not_rejects)
qed

theorem login_valid_session_witness:
  "\<not> rejects env0 SelectUser \<and> distinct (map username (users (db st0))) \<and>
   alice \<in> set (users (db st0)) \<and> root \<in> set (users (db st0)) \<and>
   bcrypt_compare env0 (Some ''wonder'') (password_hash alice) = Some True \<and>
   bcrypt_compare env0 (Some ''toor'') (password_hash root) = Some True \<and>
   resp (post_login env0 st0 (login_request 12 ''alice'' ''wonder'')) = Redirect ''/'' \<and>
   sessions (post (post_login env0 st0 (login_request 12 ''alice'' ''wonder''))) 12 =
     Some \<lparr>s_id = 2, s_username = ''alice'', s_is_admin = False\<rparr> \<and>
   sessions (post (post_login env0 st0 (login_request 13 ''root'' ''toor''))) 13 =
     Some \<lparr>s_id = 1, s_username = ''root'', s_is_admin = True\<rparr>"
  using login_valid_session[of env0 st0 alice "login_request 12 ''alice'' ''wonder''"]
    login_valid_session[of env0 st0 root "login_request 13 ''root'' ''toor''"]
  by (simp add: h_defs ex_defs)

subsection \<open>C5 and C10: the admin view\<close>

text \<open>
  C5: for every GET /admin request with a valid session: if the session's admin flag is
  false the response is 403 (Forbidden) and no statement is issued; if the flag is true
  (and the store accepts both queries) the response is a JSON object with the full users
  list and the list of the joined messages, which is the full messages list when every
  message has an existing sender, the messages ordered descending by timestamp.
\<close>

theorem admin_view:
  assumes "sessions st (sid req) = Some su"
  shows "(\<not> s_is_admin su \<longrightarrow>
            resp (get_admin e st req) = Send 403 ''Forbidden'' \<and>
            status (resp (get_admin e st req)) = 403 \<and>
            issued (get_admin e st req) = []) \<and>
         (s_is_admin su \<and> \<not> rejects e SelectUsers \<and> \<not> rejects e SelectAdminMessages \<longrightarrow>
            (\<exists>us ms. resp (get_admin e st req) = JsonAdmin us ms \<and>
               mset us = mset (map to_user_row (users (db st))) \<and>
               mset ms = mset (map to_admin_row (join (db st))) \<and>
               (ref_integrity (db st) \<longrightarrow>
                  mset (map (\<lambda>r. (a_id r, a_text r, a_ts r)) ms) =
                  mset (map (\<lambda>m. (m_id m, m_text m, ts m)) (messages (db st)))) \<and>
               sorted (rev (map a_ts ms))))"
proof (intro conjI impI)
  assume "\<not> s_is_admin su"
  with assms show "resp (get_admin e st req) = Send 403 ''Forbidden''"
    and "status (resp (get_admin e st req)) = 403"
    and "issued (get_admin e st req) = []"
    by (simp_all add: get_admin_def requireLogin_def)
next
  assume h: "s_is_admin su \<and> \<not> rejects e SelectUsers \<and> \<not> rejects e SelectAdminMessages"
  let ?us = "order_by_asc username (users (db st))"
  let ?ps = "order_by_desc (\<lambda>p. ts (fst p)) (join (db st))"
  have r: "resp (get_admin e st req) =
             JsonAdmin (map to_user_row ?us) (map to_admin_row ?ps)"
    using get_admin_ok[OF assms, of e] h by simp
  have u: "mset (map to_user_row ?us) = mset (map to_user_row (users (db st)))"
    by (simp add: mset_order_by_asc)
  have m: "mset (map to_admin_row ?ps) = mset (map to_admin_row (join (db st)))"
    by (simp add: mset_order_by_desc)
  have c: "mset (map (\<lambda>r. (a_id r, a_text r, a_ts r)) (map to_admin_row ?ps)) =
           mset (map (\<lambda>m. (m_id m, m_text m, ts m)) (messages (db st)))"
    if "ref_integrity (db st)"
  proof -
    have "mset (map fst ?ps) = mset (map fst (join (db st)))"
      by (simp add: mset_order_by_desc)
    then have "mset (map fst ?ps) = mset (messages (db st))"
      using join_messages[OF that] by simp
    then have "mset (map (\<lambda>m. (m_id m, m_text m, ts m)) (map fst ?ps)) =
               mset (map (\<lambda>m. (m_id m, m_text m, ts m)) (messages (db st)))"
      by (metis mset_map)
    then show ?thesis by (simp only: admin_cols_join)
  qed
  have s: "sorted (rev (map a_ts (map to_admin_row ?ps)))"
    using sorted_order_by_desc[of "\<lambda>p. ts (fst p)" "join (db st)"]
    by (simp add: to_admin_row_def comp_def)
  from r u m c s
  show "\<exists>us ms. resp (get_admin e st req) = JsonAdmin us ms \<and>
               mset us = mset (map to_user_row (users (db st))) \<and>
               mset ms = mset (map to_admin_row (join (db st))) \<and>
               (ref_integrity (db st) \<longrightarrow>
                  mset (map (\<lambda>r. (a_id r, a_text r, a_ts r)) ms) =
                  mset (map (\<lambda>m. (m_id m, m_text m, ts m)) (messages (db st)))) \<and>
               sorted (rev (map a_ts ms))"
    by blast
qed

theorem admin_view_witness:
  "sessions st0 (sid (request0 10)) =
     Some \<lparr>s_id = 2, s_username = ''alice'', s_is_admin = False\<rparr> \<and>
   resp (get_admin env0 st0 (request0 10)) = Send 403 ''Forbidden'' \<and>
   issued (get_admin env0 st0 (request0 10)) = [] \<and>
   sessions st0 (sid (request0 11)) =
     Some \<lparr>s_id = 1, s_username = ''root'', s_is_admin = True\<rparr> \<and>
   \<not> rejects env0 SelectUsers \<and> \<not> rejects env0 SelectAdminMessages \<and>
   ref_integrity (db st0) \<and>
   resp (get_admin env0 st0 (request0 11)) = JsonAdmin
     [\<lparr>c_id = 2, c_username = ''alice'', c_is_admin = 0\<rparr>,
      \<lparr>c_id = 1, c_username = ''root'', c_is_admin = 1\<rparr>]
     [\<lparr>a_id = 3, a_text = ''bye'', a_ts = 9, a_sender = ''alice'', a_is_admin = 0\<rparr>,
      \<lparr>a_id = 1, a_text = ''hi'', a_ts = 5, a_sender = ''alice'', a_is_admin = 0\<rparr>,
      \<lparr>a_id = 2, a_text = ''yo'', a_ts = 5, a_sender = ''root'', a_is_admin = 1\<rparr>]"
  using admin_view[where st = st0 and req = "request0 10" and e = env0
      and su = "\<lparr>s_id = 2, s_username = ''alice'', s_is_admin = False\<rparr>"]
    admin_view[where st = st0 and req = "request0 11" and e = env0
      and su = "\<lparr>s_id = 1, s_username = ''root'', s_is_admin = True\<rparr>"]
  by (simp add: h_defs ex_defs ref_integrity_def)

text \<open>
  C10: for every GET /admin request by an admin session (that the store accepts), the
  users array of the response is sorted ascending by username, in the byte order of the
  names.
\<close>

theorem admin_users_sorted:
  assumes "sessions st (sid req) = Some su" and "s_is_admin su"
    and "\<not> rejects e SelectUsers" and "\<not> rejects e SelectAdminMessages"
  shows "\<exists>us ms. resp (get_admin e st req) = JsonAdmin us ms \<and> sorted (map c_username us)"
proof -
  have "sorted (map c_username (map to_user_row (order_by_asc username (users (db st)))))"
    using sorted_order_by_asc[of username "users (db st)"]
    by (simp add: to_user_row_def comp_def)
  then show ?thesis using get_admin_ok[OF assms] by simp
qed

theorem admin_users_sorted_witness:
  "sessions st0 (sid (request0 11)) =
     Some \<lparr>s_id = 1, s_username = ''root'', s_is_admin = True\<rparr> \<and>
   \<not> rejects env0 SelectUsers \<and> \<not> rejects env0 SelectAdminMessages \<and>
   map username (users (db st0)) = [''root'', ''alice''] \<and>
   (\<exists>ms. resp (get_admin env0 st0 (request0 11)) = JsonAdmin
     [\<lparr>c_id = 2, c_username = ''alice'', c_is_admin = 0\<rparr>,
      \<lparr>c_id = 1, c_username = ''root'', c_is_admin = 1\<rparr>] ms) \<and>
   sorted [''alice'', ''root'']"
  using admin_users_sorted[where st = st0 and req = "request0 11" and e = env0
      and su = "\<lparr>s_id = 1, s_username = ''root'', s_is_admin = True\<rparr>"]
  by (simp add: h_defs ex_defs)

subsection \<open>C6: the listing after a logout\<close>

text \<open>
  C6 as stated fails: after alice's logout a GET /messages with her cookie is not answered
  with the unauthorized status 401; \<open>requireLogin\<close> answers with a redirect, status 302,
  to the login page.
\<close>

theorem logout_then_messages_counterexample:
  "sessions st0 (sid (request0 10)) \<noteq> None \<and>
   sessions (post (post_logout st0 (request0 10))) (sid (request0 10)) = None \<and>
   resp (get_messages env0 (post (post_logout st0 (request0 10))) (request0 10)) =
     Redirect ''/login.html'' \<and>
   status (resp (get_messages env0 (post (post_logout st0 (request0 10))) (request0 10)))
     \<noteq> 401"
  by (simp add: h_defs ex_defs)

text \<open>
  C6, amended: for every GET /messages request made after a logout with the session that
  was logged out, and no new login, the request is not served: the response is the
  redirect (302) to /login.html, no statement is issued and the state stays as the logout
  left it.
\<close>

theorem logout_then_messages_redirected:
  assumes "sid req' = sid req"
  shows "resp (get_messages e (post (post_logout st req)) req') = Redirect ''/login.html'' \<and>
         status (resp (get_messages e (post (post_logout st req)) req')) = 302 \<and>
         issued (get_messages e (post (post_logout st req)) req') = [] \<and>
         post (get_messages e (post (post_logout st req)) req') = post (post_logout st req)"
  using assms by (simp add: get_messages_def requireLogin_def post_logout_def)

theorem logout_then_messages_redirected_witness:
  "sid (request0 10) = sid (send_request 10 ''x'') \<and>
   sessions st0 (sid (send_request 10 ''x'')) \<noteq> None \<and>
   resp (get_messages env0 (post (post_logout st0 (send_request 10 ''x''))) (request0 10)) =
     Redirect ''/login.html'' \<and>
   issued (get_messages env0 (post (post_logout st0 (send_request 10 ''x''))) (request0 10))
     = []"
  using logout_then_messages_redirected[where req' = "request0 10"
      and req = "send_request 10 ''x''" and e = env0 and st = st0]
  by (simp add: request0_def send_request_def st0_def)

subsection \<open>C7: storage failures\<close>

text \<open>
  A statement that fails on the opened database is caught by the handler that issued it:
  the response has status 500, the failed statement is the last one the wrappers were
  given and was given once, and the state is unchanged. The chat page, logout and the
  health check issue no statement.
\<close>

lemma statement_failure_500:
  "(body req \<noteq> None \<and> opens e \<and> fails e SelectUser \<longrightarrow>
      status (resp (post_login e st req)) = 500 \<and> issued (post_login e st req) = [SelectUser] \<and>
      post (post_login e st req) = st) \<and>
   (sessions st (sid req) \<noteq> None \<and> truthy (body_text req) \<and> opens e \<and>
    fails e InsertMessage \<longrightarrow>
      status (resp (post_send e st req)) = 500 \<and> issued (post_send e st req) = [InsertMessage] \<and>
      post (post_send e st req) = st) \<and>
   (sessions st (sid req) \<noteq> None \<and> opens e \<and> fails e SelectMessages \<longrightarrow>
      status (resp (get_messages e st req)) = 500 \<and>
      issued (get_messages e st req) = [SelectMessages] \<and>
      post (get_messages e st req) = st) \<and>
   (sessions st (sid req) = Some su \<and> s_is_admin su \<and> opens e \<and> fails e SelectUsers \<longrightarrow>
      status (resp (get_admin e st req)) = 500 \<and> issued (get_admin e st req) = [SelectUsers] \<and>
      post (get_admin e st req) = st) \<and>
   (sessions st (sid req) = Some su \<and> s_is_admin su \<and> opens e \<and> \<not> fails e SelectUsers \<and>
    fails e SelectAdminMessages \<longrightarrow>
      status (resp (get_admin e st req)) = 500 \<and>
      issued (get_admin e st req) = [SelectUsers, SelectAdminMessages] \<and>
      post (get_admin e st req) = st) \<and>
   issued (get_root st req) = [] \<and> issued (post_logout st req) = [] \<and>
   issued (get_health st req) = []"
  by (cases "body req")
    (auto simp: post_login_def post_send_def get_messages_def get_admin_def requireLogin_def
      select_user_def insert_message_def select_messages_def select_users_def
      select_admin_messages_def get_root_def post_logout_def get_health_def
      truthy_def body_text_def split: option.splits)

lemma statement_failure_500_example:
  "resp (post_login env_down st0 (login_request 12 ''alice'' ''wonder'')) =
     Send 500 ''Server error'' \<and>
   resp (post_send env_down st0 (send_request 10 ''hi'')) = Send 500 ''Database error'' \<and>
   resp (get_messages env_down st0 (request0 10)) = JsonMessages 500 [] \<and>
   resp (get_admin env_down st0 (request0 11)) = Send 500 ''Server error'' \<and>
   issued (get_admin env_down st0 (request0 11)) = [SelectUsers] \<and>
   resp (get_admin env_half st0 (request0 11)) = Send 500 ''Server error'' \<and>
   issued (get_admin env_half st0 (request0 11)) = [SelectUsers, SelectAdminMessages]"
  by (simp add: h_defs ex_defs)

text \<open>
  C7 does not hold of the code. \<open>openDb\<close> is called before each handler's \<open>try\<close>, with no
  callback and no error listener: when the database file cannot be opened, each of the
  four handlers that reach the store ends the process and sends no response, so none
  answers with a 5xx status.
\<close>

theorem open_failure_no_response:
  "\<not> opens env_closed \<and>
   resp (post_login env_closed st0 (login_request 12 ''alice'' ''wonder'')) = NoResponse \<and>
   sessions st0 (sid (send_request 10 ''hi'')) \<noteq> None \<and>
   resp (post_send env_closed st0 (send_request 10 ''hi'')) = NoResponse \<and>
   resp (get_messages env_closed st0 (request0 10)) = NoResponse \<and>
   sessions st0 (sid (request0 11)) =
     Some \<lparr>s_id = 1, s_username = ''root'', s_is_admin = True\<rparr> \<and>
   resp (get_admin env_closed st0 (request0 11)) = NoResponse \<and>
   \<not> 500 \<le> status NoResponse"
  by (simp add: h_defs ex_defs)

text \<open>The send above is past the handler's guard: it has a session and a non-empty text.\<close>

theorem open_failure_no_response_witness:
  "sessions st0 (sid (send_request 10 ''hi'')) \<noteq> None \<and>
   truthy (body_text (send_request 10 ''hi'')) \<and>
   resp (post_send env_closed st0 (send_request 10 ''hi'')) = NoResponse \<and>
   status (resp (post_send env_closed st0 (send_request 10 ''hi''))) = 0"
  using open_failure_no_response by (simp add: h_defs ex_defs)

subsection \<open>C8: the listing is an inner join\<close>

text \<open>
  C8: for every GET /messages request (with a valid session, accepted by the store), every
  returned entry carries the username and admin flag of a stored user who is the sender
  of the stored message with the entry's id; and, message ids being unique, a stored
  message whose \<open>sender_id\<close> matches no user has no entry in the array.
\<close>

theorem messages_inner_join:
  assumes "sessions st (sid req) \<noteq> None" and "\<not> rejects e SelectMessages"
  shows "\<exists>rows. resp (get_messages e st req) = JsonMessages 200 rows \<and>
           (\<forall>r\<in>set rows. \<exists>u\<in>set (users (db st)).
               r_username r = username u \<and> r_is_admin r = is_admin u \<and>
               (\<exists>m\<in>set (messages (db st)). sender_id m = u_id u \<and> r_id r = m_id m)) \<and>
           (distinct (map m_id (messages (db st))) \<longrightarrow>
              (\<forall>m\<in>set (messages (db st)).
                 \<not> has_sender (db st) m \<longrightarrow> m_id m \<notin> r_id ` set rows))"
proof -
  let ?ps = "order_by_asc (\<lambda>p. ts (fst p)) (join (db st))"
  have r: "resp (get_messages e st req) = JsonMessages 200 (map to_msg_row ?ps)"
    using get_messages_ok[OF assms] by simp
  have a: "\<forall>r\<in>set (map to_msg_row ?ps). \<exists>u\<in>set (users (db st)).
               r_username r = username u \<and> r_is_admin r = is_admin u \<and>
               (\<exists>m\<in>set (messages (db st)). sender_id m = u_id u \<and> r_id r = m_id m)"
    by (auto simp: set_order_by_asc set_join to_msg_row_def)
  have b: "m_id m \<notin> r_id ` set (map to_msg_row ?ps)"
    if d: "distinct (map m_id (messages (db st)))" and m: "m \<in> set (messages (db st))"
      and o: "\<not> has_sender (db st) m" for m
  proof
    assume "m_id m \<in> r_id ` set (map to_msg_row ?ps)"
    then obtain m' u where p: "(m', u) \<in> set (join (db st))" and i: "m_id m' = m_id m"
      by (auto simp: set_order_by_asc to_msg_row_def)
    from p have m': "m' \<in> set (messages (db st))" "u \<in> set (users (db st))"
      "sender_id m' = u_id u"
      by (auto simp: set_join)
    from d m m'(1) i have "m' = m" by (auto simp: distinct_map inj_on_def)
    with m' o show False by (auto simp: has_sender_def list_ex_iff)
  qed
  from r a b show ?thesis by blast
qed

theorem messages_inner_join_witness:
  "sessions st_orphan (sid (request0 10)) \<noteq> None \<and> \<not> rejects env0 SelectMessages \<and>
   distinct (map m_id (messages (db st_orphan))) \<and>
   map m_id (messages (db st_orphan)) = [1, 2] \<and>
   \<not> has_sender (db st_orphan) \<lparr>m_id = 2, sender_id = 7, m_text = ''lost'', ts = 6\<rparr> \<and>
   resp (get_messages env0 st_orphan (request0 10)) = JsonMessages 200
     [\<lparr>r_id = 1, r_text = ''hi'', r_ts = 5, r_username = ''alice'', r_is_admin = 0\<rparr>]"
  using messages_inner_join[of st_orphan "request0 10" env0]
  by (simp add: h_defs ex_defs)

subsection \<open>C9: the two listings only read\<close>

text \<open>
  C9: GET /messages and GET /admin perform only reads: for every such request, whatever
  the session and whatever the store answers, the users and messages tables after the
  request are the tables before it.
\<close>

theorem reads_leave_tables:
  "users (db (post (get_messages e st req))) = users (db st) \<and>
   messages (db (post (get_messages e st req))) = messages (db st) \<and>
   users (db (post (get_admin e st req))) = users (db st) \<and>
   messages (db (post (get_admin e st req))) = messages (db st)"
proof -
  have m: "db (post (get_messages e st req)) = db st"
    by (cases "sessions st (sid req)"; cases "fails e SelectMessages")
      (simp_all add: get_messages_def requireLogin_def select_messages_def crashed_def)
  have a: "db (post (get_admin e st req)) = db st"
  proof (cases "sessions st (sid req)")
    case None
    then show ?thesis by (simp add: get_admin_def requireLogin_def)
  next
    case (Some su)
    then show ?thesis
      by (cases "fails e SelectUsers"; cases "fails e SelectAdminMessages")
        (simp_all add: get_admin_def requireLogin_def select_users_def
          select_admin_messages_def crashed_def)
  qed
  from m a show ?thesis by simp
qed

end
